theory Spec2Isabelle
  imports Main "HOL-Library.Word"
begin

section \<open>HP disk protection daemon: model of \<^verbatim>\<open>src/PyHp/hp_disk_protection.py\<close>\<close>

text \<open>
  The daemon is modelled by explicit state passing. One record holds the part of the
  operating system the program touches (readable text surfaces, writable control
  surfaces, the values the control surfaces last accepted, the single process alarm),
  the attributes of the \<^verbatim>\<open>HPDiskProtection\<close> object, and the sequence of actions the
  program has performed so far (write attempts, calls of \<^verbatim>\<open>signal.alarm\<close>, printed lines).

  Conventions of the model:
  \<^item> a Python \<^verbatim>\<open>str\<close> is a \<open>string\<close>; every \<open>char\<close> stands for one code point below 256,
    and the text surfaces are assumed to decode;
  \<^item> \<^verbatim>\<open>open(path, 'r')\<close> raises \<^verbatim>\<open>OSError\<close> exactly when \<open>files s path = None\<close>;
    \<^verbatim>\<open>open(path, 'w')\<close> followed by the write raises exactly when \<open>writable s path\<close> is
    false;
  \<^item> \<^verbatim>\<open>f.write(str(value))\<close> is recorded as the integer \<open>value\<close> itself;
  \<^item> time is counted in milliseconds; \<^verbatim>\<open>signal.alarm(n)\<close> arms \<open>n * 1000\<close> of them;
  \<^item> the \<^verbatim>\<open>SIGALRM\<close> handler, \<^verbatim>\<open>KeyboardInterrupt\<close> and \<^verbatim>\<open>SIGTERM\<close> are delivered while the
    loop is blocked in \<^verbatim>\<open>freefall_fd.read(1)\<close>, the only place where the program waits.
\<close>

subsection \<open>Data\<close>

text \<open>
  \<open>exc\<close> lists the exceptions the program raises or lets through; \<open>msg\<close> stands for the
  lines it prints (one constructor per \<^verbatim>\<open>print\<close> call of the source, with the values it
  interpolates); an \<open>action\<close> is a write attempt with its success, a call of
  \<^verbatim>\<open>signal.alarm\<close>, or a printed line. In \<open>st\<close>, the first four fields are the
  environment, \<open>log\<close> is the history, and the last three are the attributes of the
  object.
\<close>

type_synonym path = string

datatype exc =
    ValueError string
  | RuntimeError string
  | OSError
  | SystemExit int

datatype msg =
    ErrAccessing path
  | ErrWriting path
  | ForkFailedMsg
  | WarnScheduling
  | WarnLockMemory
  | Started string
  | FreefallDetected nat
  | ShuttingDown
  | ErrReading nat
  | ErrOpening path
  | WarnNotRoot
  | ErrorMsg exc
  | HelpText
  | UnexpectedError exc

datatype action =
    Write path int bool
  | Alarm nat
  | Stdout msg
  | Stderr msg

record st =
  files :: "path \<Rightarrow> string option"
  writable :: "path \<Rightarrow> bool"
  written :: "path \<Rightarrow> int option"
  pending_alarm :: "nat option"
  log :: "action list"
  device :: string
  unload_heads_path :: path
  protection_active :: bool

definition emit :: "action \<Rightarrow> st \<Rightarrow> st" where
  "emit a s = s\<lparr>log := log s @ [a]\<rparr>"

subsection \<open>Python string helpers\<close>

text \<open>
  \<^verbatim>\<open>str.startswith\<close>, \<^verbatim>\<open>str.strip()\<close> (whitespace as \<^verbatim>\<open>str.isspace\<close> sees it on code points
  below 256), \<^verbatim>\<open>str.lower()\<close> on the same range, and the substring test \<^verbatim>\<open>p in s\<close>
  (\<open>contains s p\<close>).
\<close>

definition startswith :: "string \<Rightarrow> string \<Rightarrow> bool" where
  "startswith s p = (take (length p) s = p)"

definition isspace :: "char \<Rightarrow> bool" where
  "isspace c = (let n = (of_char c :: nat) in
     (9 \<le> n \<and> n \<le> 13) \<or> (28 \<le> n \<and> n \<le> 32) \<or> n = 133 \<or> n = 160)"

definition strip :: "string \<Rightarrow> string" where
  "strip s = rev (dropWhile isspace (rev (dropWhile isspace s)))"

definition lower_char :: "char \<Rightarrow> char" where
  "lower_char c = (let n = (of_char c :: nat) in
     if (65 \<le> n \<and> n \<le> 90) \<or> (192 \<le> n \<and> n \<le> 222 \<and> n \<noteq> 215)
     then char_of (n + 32) else c)"

definition lower :: "string \<Rightarrow> string" where
  "lower s = map lower_char s"

fun contains :: "string \<Rightarrow> string \<Rightarrow> bool" where
  "contains [] p = (p = [])"
| "contains (c # cs) p = (startswith (c # cs) p \<or> contains cs p)"

subsection \<open>Construction of the handle\<close>

text \<open>
  \<^verbatim>\<open>_set_unload_heads_path\<close> (lines 39-46), \<^verbatim>\<open>_valid_disk\<close> (lines 48-55) and \<^verbatim>\<open>__init__\<close>
  (lines 28-37). A function of the source that returns a value and changes the object
  returns the pair of both; \<open>init\<close> returns the exception it raises, if any.
\<close>

definition set_unload_heads_path :: "st \<Rightarrow> string \<Rightarrow> bool \<times> st" where
  "set_unload_heads_path s dev =
     (if length dev \<le> 5 \<or> \<not> startswith dev ''/dev/'' then (False, s)
      else (True, s\<lparr>unload_heads_path := ''/sys/block/'' @ drop 5 dev @ ''/device/unload_heads''\<rparr>))"

definition valid_disk :: "st \<Rightarrow> bool \<times> st" where
  "valid_disk s =
     (case files s (unload_heads_path s) of
        Some _ \<Rightarrow> (True, s)
      | None \<Rightarrow> (False, emit (Stderr (ErrAccessing (unload_heads_path s))) s))"

definition init :: "st \<Rightarrow> string \<Rightarrow> exc option \<times> st" where
  "init s dev =
     (let s0 = s\<lparr>device := dev, unload_heads_path := [], protection_active := False\<rparr>;
          (ok1, s1) = set_unload_heads_path s0 dev
      in if \<not> ok1 then (Some (ValueError dev), s1)
         else let (ok2, s2) = valid_disk s1
              in if \<not> ok2 then (Some (RuntimeError dev), s2) else (None, s2))"

subsection \<open>Device controller\<close>

text \<open>
  \<^verbatim>\<open>_write_int\<close> (lines 57-65), \<^verbatim>\<open>set_led\<close> (lines 67-70) and \<^verbatim>\<open>protect\<close> (lines 72-74). A
  failed write is caught inside \<^verbatim>\<open>_write_int\<close>, printed, and reported as \<^verbatim>\<open>False\<close>.
\<close>

definition led_path :: path where
  "led_path = ''/sys/class/leds/hp::hddprotect/brightness''"

definition write_int :: "st \<Rightarrow> path \<Rightarrow> int \<Rightarrow> bool \<times> st" where
  "write_int s p v =
     (if writable s p
      then (True, emit (Write p v True) (s\<lparr>written := (written s)(p := Some v)\<rparr>))
      else (False, emit (Stderr (ErrWriting p)) (emit (Write p v False) s)))"

definition set_led :: "st \<Rightarrow> bool \<Rightarrow> bool \<times> st" where
  "set_led s on = write_int s led_path (if on then 1 else 0)"

definition protect :: "st \<Rightarrow> int \<Rightarrow> bool \<times> st" where
  "protect s seconds = write_int s (unload_heads_path s) (seconds * 1000)"

subsection \<open>Environment sensor\<close>

text \<open>
  \<^verbatim>\<open>on_ac\<close> (lines 76-84) and \<^verbatim>\<open>lid_open\<close> (lines 86-95).
\<close>

definition ac_path :: path where
  "ac_path = ''/sys/class/power_supply/AC0/online''"

definition lid_path :: path where
  "lid_path = ''/proc/acpi/button/lid/LID/state''"

definition on_ac :: "st \<Rightarrow> bool" where
  "on_ac s = (case files s ac_path of Some c \<Rightarrow> strip c = ''1'' | None \<Rightarrow> True)"

definition lid_open :: "st \<Rightarrow> bool" where
  "lid_open s = (case files s lid_path of Some c \<Rightarrow> contains (lower (strip c)) ''open'' | None \<Rightarrow> True)"

subsection \<open>Alarm and its handler\<close>

text \<open>
  \<^verbatim>\<open>_signal_handler\<close> (lines 97-101). \<^verbatim>\<open>signal.alarm(n)\<close> replaces the one alarm of the
  process, and cancels it when \<open>n = 0\<close>. \<open>elapse s dt\<close> lets \<open>dt\<close> milliseconds pass while
  the loop is blocked in the read: an alarm with more than \<open>dt\<close> left keeps the rest,
  any other pending alarm expires and runs the handler.
\<close>

definition signal_handler :: "st \<Rightarrow> st" where
  "signal_handler s =
     (let s1 = snd (protect s 0);
          s2 = snd (set_led s1 False)
      in s2\<lparr>protection_active := False\<rparr>)"

definition signal_alarm :: "st \<Rightarrow> nat \<Rightarrow> st" where
  "signal_alarm s n =
     emit (Alarm n) (s\<lparr>pending_alarm := (if n = 0 then None else Some (n * 1000))\<rparr>)"

definition elapse :: "st \<Rightarrow> nat \<Rightarrow> st" where
  "elapse s dt =
     (case pending_alarm s of
        None \<Rightarrow> s
      | Some r \<Rightarrow> if dt < r then s\<lparr>pending_alarm := Some (r - dt)\<rparr>
                  else signal_handler (s\<lparr>pending_alarm := None\<rparr>))"

subsection \<open>The control loop\<close>

text \<open>
  The \<^verbatim>\<open>while True\<close> loop of \<^verbatim>\<open>run\<close> (lines 171-203), driven by a script of what the
  environment does: a read returns (one byte, no byte, a \<^verbatim>\<open>KeyboardInterrupt\<close>, or an
  \<^verbatim>\<open>OSError\<close> with its errno), time passes, or a surface changes. While it is blocked
  in the read the process may also receive \<^verbatim>\<open>SIGTERM\<close>: the program installs a handler for
  \<^verbatim>\<open>SIGALRM\<close> only (line 167), so the default action ends the process there and no
  Python code runs any more. \<open>loop\<close> returns the state and how the loop went on: still
  blocked in the read (the script is used up), left by \<^verbatim>\<open>break\<close>, or ended with the
  process. An exception raised by the read skips \<^verbatim>\<open>signal.alarm(0)\<close>.
\<close>

type_synonym byte = "8 word"

datatype read_result =
    Data byte
  | Eof
  | KeyboardInterrupt
  | ReadError nat
  | Sigterm

datatype env_event =
    Arrive read_result
  | Elapse nat
  | SetFile path "string option"
  | SetWritable path bool

definition EINTR :: nat where
  "EINTR = 4"

definition SIGTERM :: nat where
  "SIGTERM = 15"

datatype flow = Blocked | Fell | Died | Threw exc

definition on_data :: "st \<Rightarrow> byte \<Rightarrow> st" where
  "on_data s b =
     (let s1 = emit (Stdout (FreefallDetected (unat b))) s;
          s2 = snd (protect s1 21);
          s3 = snd (set_led s2 True);
          s4 = s3\<lparr>protection_active := True\<rparr>
      in if on_ac s4 \<or> lid_open s4 then signal_alarm s4 2 else signal_alarm s4 20)"

fun loop :: "st \<Rightarrow> env_event list \<Rightarrow> st \<times> flow" where
  "loop s [] = (s, Blocked)"
| "loop s (Elapse dt # es) = loop (elapse s dt) es"
| "loop s (SetFile p c # es) = loop (s\<lparr>files := (files s)(p := c)\<rparr>) es"
| "loop s (SetWritable p b # es) = loop (s\<lparr>writable := (writable s)(p := b)\<rparr>) es"
| "loop s (Arrive (Data b) # es) = loop (on_data (signal_alarm s 0) b) es"
| "loop s (Arrive Eof # es) = loop (signal_alarm s 0) es"
| "loop s (Arrive KeyboardInterrupt # es) = (emit (Stdout ShuttingDown) s, Fell)"
| "loop s (Arrive (ReadError e) # es) =
     (if e = EINTR then loop s es else (emit (Stderr (ErrReading e)) s, Fell))"
| "loop s (Arrive Sigterm # es) = (s, Died)"

subsection \<open>Lifecycle: \<^verbatim>\<open>run\<close> and \<^verbatim>\<open>main\<close>\<close>

text \<open>
  \<^verbatim>\<open>daemonize\<close> (lines 103-137) is an external collaborator; what matters here is how it
  ends: the process goes on detached, it is a parent and calls \<^verbatim>\<open>sys.exit(0)\<close>, a fork
  fails (a line on stderr and \<^verbatim>\<open>sys.exit(1)\<close>), or another call raises \<^verbatim>\<open>OSError\<close>.
  \<open>startup\<close> is the best-effort tuning and the start line (lines 148-169).
  \<open>with_block\<close> is the body of the \<^verbatim>\<open>try\<close> (lines 144-203); \<open>run\<close> adds the \<^verbatim>\<open>except\<close>
  clause, the \<^verbatim>\<open>finally\<close> block (\<open>cleanup\<close>, lines 209-212) and the final \<^verbatim>\<open>return 0\<close>.
  The result of \<open>run\<close> is \<open>None\<close> while the program is still blocked in the read, and
  \<open>Signalled\<close> when the process was ended by a signal: then neither the \<^verbatim>\<open>except\<close>
  clauses nor the \<^verbatim>\<open>finally\<close> block run. \<open>main\<close> is lines 251-266 and \<open>exit_code\<close> the
  code \<^verbatim>\<open>sys.exit(main())\<close> ends with (for a signalled process, the status a shell
  shows).
\<close>

datatype daemon_outcome = Detached | ParentExit | ForkFailed | DetachFailed

record boot =
  daemon :: daemon_outcome
  sched_ok :: bool
  mlock_ok :: bool

definition daemonize :: "daemon_outcome \<Rightarrow> st \<Rightarrow> exc option \<times> st" where
  "daemonize d s =
     (case d of
        Detached \<Rightarrow> (None, s)
      | ParentExit \<Rightarrow> (Some (SystemExit 0), s)
      | ForkFailed \<Rightarrow> (Some (SystemExit 1), emit (Stderr ForkFailedMsg) s)
      | DetachFailed \<Rightarrow> (Some OSError, s))"

definition freefall_device :: path where
  "freefall_device = ''/dev/freefall''"

definition startup :: "st \<Rightarrow> boot \<Rightarrow> st" where
  "startup s bt =
     (let s2 = (if sched_ok bt then s else emit (Stderr WarnScheduling) s);
          s3 = (if mlock_ok bt then s2 else emit (Stderr WarnLockMemory) s2)
      in emit (Stdout (Started (device s3))) s3)"

definition with_block :: "st \<Rightarrow> bool \<Rightarrow> boot \<Rightarrow> env_event list \<Rightarrow> flow \<times> st" where
  "with_block s daemon_mode bt es =
     (case files s freefall_device of
        None \<Rightarrow> (Threw OSError, s)
      | Some _ \<Rightarrow>
          (case (if daemon_mode then daemonize (daemon bt) s else (None, s)) of
             (Some e, s1) \<Rightarrow> (Threw e, s1)
           | (None, s1) \<Rightarrow>
               (case loop (startup s1 bt) es of (s5, f) \<Rightarrow> (f, s5))))"

definition cleanup :: "st \<Rightarrow> st" where
  "cleanup s = snd (set_led (snd (protect s 0)) False)"

datatype outcome = Return int | Raise exc | Signalled nat

definition run :: "st \<Rightarrow> bool \<Rightarrow> boot \<Rightarrow> env_event list \<Rightarrow> outcome option \<times> st" where
  "run s daemon_mode bt es =
     (case with_block s daemon_mode bt es of
        (Blocked, s1) \<Rightarrow> (None, s1)
      | (Fell, s1) \<Rightarrow> (Some (Return 0), cleanup s1)
      | (Died, s1) \<Rightarrow> (Some (Signalled SIGTERM), s1)
      | (Threw OSError, s1) \<Rightarrow>
          (Some (Return 1), cleanup (emit (Stderr (ErrOpening freefall_device)) s1))
      | (Threw e, s1) \<Rightarrow> (Some (Raise e), cleanup s1))"

fun main_except :: "outcome option \<times> st \<Rightarrow> outcome option \<times> st" where
  "main_except (Some (Raise (ValueError d)), s) =
     (Some (Return 1), emit (Stdout HelpText) (emit (Stderr (ErrorMsg (ValueError d))) s))"
| "main_except (Some (Raise (RuntimeError d)), s) =
     (Some (Return 1), emit (Stdout HelpText) (emit (Stderr (ErrorMsg (RuntimeError d))) s))"
| "main_except (Some (Raise OSError), s) =
     (Some (Return 1), emit (Stderr (UnexpectedError OSError)) s)"
| "main_except (Some (Raise (SystemExit c)), s) = (Some (Raise (SystemExit c)), s)"
| "main_except (r, s) = (r, s)"

definition main :: "st \<Rightarrow> string \<Rightarrow> bool \<Rightarrow> nat \<Rightarrow> boot \<Rightarrow> env_event list \<Rightarrow> outcome option \<times> st" where
  "main s dev no_daemon euid bt es =
     (let s0 = (if euid \<noteq> 0 then emit (Stderr WarnNotRoot) s else s)
      in main_except
           (case init s0 dev of
              (Some e, s1) \<Rightarrow> (Some (Raise e), s1)
            | (None, s1) \<Rightarrow> run s1 (\<not> no_daemon) bt es))"

fun exit_code :: "outcome \<Rightarrow> int" where
  "exit_code (Return c) = c"
| "exit_code (Raise (SystemExit c)) = c"
| "exit_code (Raise _) = 1"
| "exit_code (Signalled n) = 128 + int n"

subsection \<open>Observations on runs\<close>

text \<open>
  The commands of a log are its write attempts and its alarm calls; printed lines are
  not commands.
\<close>

fun is_cmd :: "action \<Rightarrow> bool" where
  "is_cmd (Write p v ok) = True"
| "is_cmd (Alarm n) = True"
| "is_cmd (Stdout m) = False"
| "is_cmd (Stderr m) = False"

definition cmds :: "action list \<Rightarrow> action list" where
  "cmds l = filter is_cmd l"

text \<open>An event of the environment ends the loop when it is a \<^verbatim>\<open>KeyboardInterrupt\<close>, a
  read error other than \<^verbatim>\<open>EINTR\<close>, or a \<^verbatim>\<open>SIGTERM\<close>; \<open>ending es\<close> is how the first such event of
  a script ends it.\<close>

fun exits :: "env_event \<Rightarrow> bool" where
  "exits (Arrive KeyboardInterrupt) = True"
| "exits (Arrive (ReadError e)) = (e \<noteq> EINTR)"
| "exits (Arrive Sigterm) = True"
| "exits _ = False"

fun ending :: "env_event list \<Rightarrow> flow" where
  "ending [] = Blocked"
| "ending (e # es) =
     (if exits e then (if e = Arrive Sigterm then Died else Fell) else ending es)"

text \<open>Between two reads that return, the environment only lets time pass or changes
  surfaces; \<open>waited\<close> is the time that passes.\<close>

fun is_arrive :: "env_event \<Rightarrow> bool" where
  "is_arrive (Arrive r) = True"
| "is_arrive _ = False"

fun waited :: "env_event list \<Rightarrow> nat" where
  "waited [] = 0"
| "waited (Elapse dt # es) = dt + waited es"
| "waited (e # es) = waited es"

text \<open>Forgetting the byte an event carries, and the count a printed line shows.\<close>

fun erase :: "env_event \<Rightarrow> env_event" where
  "erase (Arrive (Data b)) = Arrive (Data 0)"
| "erase e = e"

fun anon :: "action \<Rightarrow> action" where
  "anon (Stdout (FreefallDetected n)) = Stdout (FreefallDetected 0)"
| "anon a = a"

text \<open>A machine on which the daemon starts: \<^verbatim>\<open>/dev/sda\<close> has a head-park surface, the
  freefall device exists, every control surface accepts writes, and the power and lid
  surfaces are as given.\<close>

definition machine :: "string option \<Rightarrow> string option \<Rightarrow> st" where
  "machine ac lid =
     \<lparr>files = (\<lambda>p. if p = ''/sys/block/sda/device/unload_heads'' then Some ''0''
                     else if p = freefall_device then Some []
                     else if p = ac_path then ac
                     else if p = lid_path then lid
                     else None),
      writable = (\<lambda>p. True),
      written = (\<lambda>p. None),
      pending_alarm = None,
      log = [],
      device = [],
      unload_heads_path = [],
      protection_active = False\<rparr>"

definition foreground :: boot where
  "foreground = \<lparr>daemon = Detached, sched_ok = True, mlock_ok = True\<rparr>"

text \<open>The handle for \<^verbatim>\<open>/dev/sda\<close> on such a machine, as \<^verbatim>\<open>__init__\<close> leaves it.\<close>

definition sda :: "string option \<Rightarrow> string option \<Rightarrow> st" where
  "sda ac lid = snd (init (machine ac lid) ''/dev/sda'')"

text \<open>Two states are similar when they agree on everything but the counts shown in the
  printed freefall lines.\<close>

definition sim :: "st \<Rightarrow> st \<Rightarrow> bool" where
  "sim s t \<longleftrightarrow> files s = files t \<and> writable s = writable t \<and> written s = written t \<and>
     pending_alarm s = pending_alarm t \<and> device s = device t \<and>
     unload_heads_path s = unload_heads_path t \<and> protection_active s = protection_active t \<and>
     map anon (log s) = map anon (log t)"

section \<open>Basic facts about the operations\<close>

lemma emit_simps [simp]:
  "files (emit a s) = files s" "writable (emit a s) = writable s"
  "written (emit a s) = written s" "pending_alarm (emit a s) = pending_alarm s"
  "device (emit a s) = device s" "unload_heads_path (emit a s) = unload_heads_path s"
  "protection_active (emit a s) = protection_active s" "log (emit a s) = log s @ [a]"
  by (simp_all add: emit_def)

lemma cmds_simps [simp]:
  "cmds [] = []" "cmds (l @ m) = cmds l @ cmds m"
  "cmds (a # l) = (if is_cmd a then a # cmds l else cmds l)"
  by (simp_all add: cmds_def)

lemma write_int_simps [simp]:
  "files (snd (write_int s p v)) = files s"
  "writable (snd (write_int s p v)) = writable s"
  "pending_alarm (snd (write_int s p v)) = pending_alarm s"
  "device (snd (write_int s p v)) = device s"
  "unload_heads_path (snd (write_int s p v)) = unload_heads_path s"
  "protection_active (snd (write_int s p v)) = protection_active s"
  "fst (write_int s p v) = writable s p"
  by (simp_all add: write_int_def)

lemma write_int_written:
  "written (snd (write_int s p v)) = (if writable s p then (written s)(p := Some v) else written s)"
  by (simp add: write_int_def)

lemma write_int_log:
  "log (snd (write_int s p v)) =
     log s @ (if writable s p then [Write p v True] else [Write p v False, Stderr (ErrWriting p)])"
  by (simp add: write_int_def)

lemma write_int_cmds [simp]:
  "cmds (log (snd (write_int s p v))) = cmds (log s) @ [Write p v (writable s p)]"
  by (simp add: write_int_log)

lemma signal_alarm_simps [simp]:
  "files (signal_alarm s n) = files s" "writable (signal_alarm s n) = writable s"
  "written (signal_alarm s n) = written s"
  "pending_alarm (signal_alarm s n) = (if n = 0 then None else Some (n * 1000))"
  "device (signal_alarm s n) = device s" "unload_heads_path (signal_alarm s n) = unload_heads_path s"
  "protection_active (signal_alarm s n) = protection_active s"
  "log (signal_alarm s n) = log s @ [Alarm n]"
  by (simp_all add: signal_alarm_def)

lemma sensors_cong [simp]:
  "on_ac (emit a s) = on_ac s" "lid_open (emit a s) = lid_open s"
  "on_ac (snd (write_int s p v)) = on_ac s" "lid_open (snd (write_int s p v)) = lid_open s"
  "on_ac (signal_alarm s n) = on_ac s" "lid_open (signal_alarm s n) = lid_open s"
  "on_ac (s\<lparr>protection_active := b\<rparr>) = on_ac s" "lid_open (s\<lparr>protection_active := b\<rparr>) = lid_open s"
  by (simp_all add: on_ac_def lid_open_def)


lemma protect_simps [simp]:
  "files (snd (protect s n)) = files s"
  "writable (snd (protect s n)) = writable s"
  "pending_alarm (snd (protect s n)) = pending_alarm s"
  "device (snd (protect s n)) = device s"
  "unload_heads_path (snd (protect s n)) = unload_heads_path s"
  "protection_active (snd (protect s n)) = protection_active s"
  "fst (protect s n) = writable s (unload_heads_path s)"
  "cmds (log (snd (protect s n))) = cmds (log s) @ [Write (unload_heads_path s) (n * 1000) (writable s (unload_heads_path s))]"
  "on_ac (snd (protect s n)) = on_ac s" "lid_open (snd (protect s n)) = lid_open s"
  by (simp_all add: protect_def)

lemma set_led_simps [simp]:
  "files (snd (set_led s b)) = files s"
  "writable (snd (set_led s b)) = writable s"
  "pending_alarm (snd (set_led s b)) = pending_alarm s"
  "device (snd (set_led s b)) = device s"
  "unload_heads_path (snd (set_led s b)) = unload_heads_path s"
  "protection_active (snd (set_led s b)) = protection_active s"
  "fst (set_led s b) = writable s led_path"
  "cmds (log (snd (set_led s b))) = cmds (log s) @ [Write led_path (if b then 1 else 0) (writable s led_path)]"
  "on_ac (snd (set_led s b)) = on_ac s" "lid_open (snd (set_led s b)) = lid_open s"
  by (simp_all add: set_led_def)

lemma cleanup_simps [simp]:
  "files (cleanup s) = files s"
  "writable (cleanup s) = writable s"
  "pending_alarm (cleanup s) = pending_alarm s"
  "device (cleanup s) = device s"
  "unload_heads_path (cleanup s) = unload_heads_path s"
  "protection_active (cleanup s) = protection_active s"
  by (simp_all add: cleanup_def)

lemma cleanup_log:
  "\<exists>tl. log (cleanup s) = log s @ tl \<and>
     cmds tl = [Write (unload_heads_path s) 0 (writable s (unload_heads_path s)),
                Write led_path 0 (writable s led_path)]"
  by (simp add: cleanup_def protect_def set_led_def write_int_def emit_def)


lemma signal_handler_simps [simp]:
  "files (signal_handler s) = files s"
  "writable (signal_handler s) = writable s"
  "pending_alarm (signal_handler s) = pending_alarm s"
  "device (signal_handler s) = device s"
  "unload_heads_path (signal_handler s) = unload_heads_path s"
  "protection_active (signal_handler s) = False"
  by (simp_all add: signal_handler_def Let_def)

lemma on_data_simps [simp]:
  "files (on_data s b) = files s"
  "writable (on_data s b) = writable s"
  "pending_alarm (on_data s b) = Some ((if on_ac s \<or> lid_open s then 2 else 20) * 1000)"
  "device (on_data s b) = device s"
  "unload_heads_path (on_data s b) = unload_heads_path s"
  "protection_active (on_data s b) = True"
  "cmds (log (on_data s b)) = cmds (log s) @
     [Write (unload_heads_path s) 21000 (writable s (unload_heads_path s)),
      Write led_path 1 (writable s led_path),
      Alarm (if on_ac s \<or> lid_open s then 2 else 20)]"
  by (simp_all add: on_data_def Let_def)

lemma elapse_simps [simp]:
  "files (elapse s dt) = files s"
  "writable (elapse s dt) = writable s"
  "device (elapse s dt) = device s"
  "unload_heads_path (elapse s dt) = unload_heads_path s"
  by (simp_all add: elapse_def split: option.splits)

lemma elapse_none [simp]: "pending_alarm s = None \<Longrightarrow> elapse s dt = s"
  by (simp add: elapse_def)

lemma elapse_before: "pending_alarm s = Some r \<Longrightarrow> dt < r \<Longrightarrow> elapse s dt = s\<lparr>pending_alarm := Some (r - dt)\<rparr>"
  by (simp add: elapse_def)

lemma loop_unload_heads_path [simp]: "unload_heads_path (fst (loop s es)) = unload_heads_path s"
  by (induction s es rule: loop.induct) simp_all

lemma loop_device [simp]: "device (fst (loop s es)) = device s"
  by (induction s es rule: loop.induct) simp_all

lemma loop_ending: "snd (loop s es) = ending es"
  by (induction s es rule: loop.induct) simp_all

lemma ending_blocked: "ending es = Blocked \<longleftrightarrow> \<not> (\<exists>e\<in>set es. exits e)"
  by (induction es) simp_all

lemma ending_append: "\<forall>e\<in>set pre. \<not> exits e \<Longrightarrow> ending (pre @ es) = ending es"
  by (induction pre) simp_all

lemma loop_exits: "snd (loop s es) \<noteq> Blocked \<longleftrightarrow> (\<exists>e\<in>set es. exits e)"
  by (simp add: loop_ending ending_blocked)

lemma loop_append:
  "snd (loop s pre) = Blocked \<Longrightarrow> loop s (pre @ es) = loop (fst (loop s pre)) es"
  by (induction s pre rule: loop.induct) (simp_all split: if_splits)

lemma quiet_none:
  "\<forall>e\<in>set mid. \<not> is_arrive e \<Longrightarrow> pending_alarm s = None \<Longrightarrow>
     log (fst (loop s mid)) = log s \<and> pending_alarm (fst (loop s mid)) = None \<and>
     protection_active (fst (loop s mid)) = protection_active s \<and>
     written (fst (loop s mid)) = written s \<and> snd (loop s mid) = Blocked"
proof (induction mid arbitrary: s)
  case Nil
  then show ?case by simp
next
  case (Cons e mid)
  then show ?case by (cases e) simp_all
qed

lemma quiet_some:
  "\<forall>e\<in>set mid. \<not> is_arrive e \<Longrightarrow> pending_alarm s = Some r \<Longrightarrow> waited mid < r \<Longrightarrow>
     log (fst (loop s mid)) = log s \<and> pending_alarm (fst (loop s mid)) = Some (r - waited mid) \<and>
     protection_active (fst (loop s mid)) = protection_active s \<and>
     written (fst (loop s mid)) = written s \<and> snd (loop s mid) = Blocked"
proof (induction mid arbitrary: s r)
  case Nil
  then show ?case by simp
next
  case (Cons e mid)
  show ?case
  proof (cases e)
    case (Arrive x)
    with Cons.prems show ?thesis by simp
  next
    case (Elapse dt)
    with Cons.prems have lt: "dt < r" and w: "waited mid < r - dt" by simp_all
    have st: "elapse s dt = s\<lparr>pending_alarm := Some (r - dt)\<rparr>"
      using Cons.prems(2) lt by (rule elapse_before)
    from Cons.prems(1) have q: "\<forall>e\<in>set mid. \<not> is_arrive e" by simp
    have "pending_alarm (elapse s dt) = Some (r - dt)" by (simp add: st)
    from Cons.IH [OF q this w] show ?thesis
      by (simp add: Elapse st)
  next
    case (SetFile p c)
    from Cons.prems have q: "\<forall>e\<in>set mid. \<not> is_arrive e" and w: "waited mid < r" by (simp_all add: SetFile)
    have "pending_alarm (s\<lparr>files := (files s)(p := c)\<rparr>) = Some r" using Cons.prems(2) by simp
    from Cons.IH [OF q this w] show ?thesis by (simp add: SetFile)
  next
    case (SetWritable p b)
    from Cons.prems have q: "\<forall>e\<in>set mid. \<not> is_arrive e" and w: "waited mid < r" by (simp_all add: SetWritable)
    have "pending_alarm (s\<lparr>writable := (writable s)(p := b)\<rparr>) = Some r" using Cons.prems(2) by simp
    from Cons.IH [OF q this w] show ?thesis by (simp add: SetWritable)
  qed
qed

subsection \<open>Lifecycle\<close>

lemma startup_simps [simp]:
  "files (startup s bt) = files s" "writable (startup s bt) = writable s"
  "written (startup s bt) = written s" "pending_alarm (startup s bt) = pending_alarm s"
  "device (startup s bt) = device s" "unload_heads_path (startup s bt) = unload_heads_path s"
  "protection_active (startup s bt) = protection_active s"
  "cmds (log (startup s bt)) = cmds (log s)"
  by (simp_all add: startup_def Let_def)

lemma with_block_no_device:
  "files s freefall_device = None \<Longrightarrow> with_block s dm bt es = (Threw OSError, s)"
  by (simp add: with_block_def)

lemma with_block_no_detach:
  "files s freefall_device \<noteq> None \<Longrightarrow> dm \<Longrightarrow> daemon bt \<noteq> Detached \<Longrightarrow>
     \<exists>e. fst (with_block s dm bt es) = Threw e \<and>
         unload_heads_path (snd (with_block s dm bt es)) = unload_heads_path s"
  by (cases "daemon bt") (auto simp add: with_block_def daemonize_def)

lemma with_block_loop:
  "files s freefall_device \<noteq> None \<Longrightarrow> dm \<longrightarrow> daemon bt = Detached \<Longrightarrow>
     with_block s dm bt es = (ending es, fst (loop (startup s bt) es))"
  by (auto simp add: with_block_def daemonize_def case_prod_unfold loop_ending)

lemma with_block_unload_heads_path [simp]:
  "unload_heads_path (snd (with_block s dm bt es)) = unload_heads_path s"
proof (cases "files s freefall_device = None")
  case True
  then show ?thesis by (simp add: with_block_no_device)
next
  case False
  show ?thesis
  proof (cases "dm \<longrightarrow> daemon bt = Detached")
    case True
    with False show ?thesis by (simp add: with_block_loop)
  next
    case False
    with \<open>files s freefall_device \<noteq> None\<close> with_block_no_detach [of s dm bt es]
    show ?thesis by simp
  qed
qed



lemma run_fell:
  "files s freefall_device \<noteq> None \<Longrightarrow> dm \<longrightarrow> daemon bt = Detached \<Longrightarrow> ending es = Fell \<Longrightarrow>
     run s dm bt es = (Some (Return 0), cleanup (fst (loop (startup s bt) es)))"
  by (simp add: run_def with_block_loop)


lemma open_failure_returns_one:
  "files s freefall_device = None \<Longrightarrow> fst (run s dm bt es) = Some (Return 1)"
  by (simp add: run_def with_block_no_device)

lemma init_bad_name:
  "length dev \<le> 5 \<or> \<not> startswith dev ''/dev/'' \<Longrightarrow>
     init s dev = (Some (ValueError dev),
                   s\<lparr>device := dev, unload_heads_path := [], protection_active := False\<rparr>)"
  by (simp add: init_def set_unload_heads_path_def)

lemma init_no_surface:
  "5 < length dev \<Longrightarrow> startswith dev ''/dev/'' \<Longrightarrow>
   files s (''/sys/block/'' @ drop 5 dev @ ''/device/unload_heads'') = None \<Longrightarrow>
     init s dev = (Some (RuntimeError dev),
        emit (Stderr (ErrAccessing (''/sys/block/'' @ drop 5 dev @ ''/device/unload_heads'')))
          (s\<lparr>device := dev, unload_heads_path := ''/sys/block/'' @ drop 5 dev @ ''/device/unload_heads'',
             protection_active := False\<rparr>))"
  by (simp add: init_def set_unload_heads_path_def valid_disk_def)

lemma init_ok:
  "5 < length dev \<Longrightarrow> startswith dev ''/dev/'' \<Longrightarrow>
   files s (''/sys/block/'' @ drop 5 dev @ ''/device/unload_heads'') \<noteq> None \<Longrightarrow>
     init s dev = (None,
          s\<lparr>device := dev, unload_heads_path := ''/sys/block/'' @ drop 5 dev @ ''/device/unload_heads'',
             protection_active := False\<rparr>)"
  by (auto simp add: init_def set_unload_heads_path_def valid_disk_def split: option.splits)

lemma main_unfold:
  "main s dev no_daemon euid bt es =
     main_except
       (case init (if euid \<noteq> 0 then emit (Stderr WarnNotRoot) s else s) dev of
          (Some e, s1) \<Rightarrow> (Some (Raise e), s1)
        | (None, s1) \<Rightarrow> run s1 (\<not> no_daemon) bt es)"
  by (simp only: main_def Let_def)

subsection \<open>Similarity up to the printed count\<close>

lemma sim_refl [simp]: "sim s s"
  by (simp add: sim_def)

lemma sim_emit: "sim s t \<Longrightarrow> anon a = anon a' \<Longrightarrow> sim (emit a s) (emit a' t)"
  by (simp add: sim_def)

lemma sim_sensors: "sim s t \<Longrightarrow> on_ac s = on_ac t" "sim s t \<Longrightarrow> lid_open s = lid_open t"
  by (simp_all add: sim_def on_ac_def lid_open_def)

lemma sim_write_int: "sim s t \<Longrightarrow> sim (snd (write_int s p v)) (snd (write_int t p v))"
  by (simp add: sim_def write_int_written write_int_log)

lemma sim_protect: "sim s t \<Longrightarrow> sim (snd (protect s n)) (snd (protect t n))"
  unfolding protect_def using sim_write_int [of s t "unload_heads_path s" "n * 1000"]
  by (simp add: sim_def)

lemma sim_set_led: "sim s t \<Longrightarrow> sim (snd (set_led s b)) (snd (set_led t b))"
  unfolding set_led_def by (rule sim_write_int)

lemma sim_active: "sim s t \<Longrightarrow> sim (s\<lparr>protection_active := b\<rparr>) (t\<lparr>protection_active := b\<rparr>)"
  by (simp add: sim_def)

lemma sim_signal_alarm: "sim s t \<Longrightarrow> sim (signal_alarm s n) (signal_alarm t n)"
  by (simp add: sim_def)

lemma sim_cleanup: "sim s t \<Longrightarrow> sim (cleanup s) (cleanup t)"
  unfolding cleanup_def by (intro sim_set_led sim_protect)

lemma sim_signal_handler: "sim s t \<Longrightarrow> sim (signal_handler s) (signal_handler t)"
  unfolding signal_handler_def Let_def by (intro sim_active sim_set_led sim_protect)

lemma sim_elapse: "sim s t \<Longrightarrow> sim (elapse s dt) (elapse t dt)"
proof -
  assume st: "sim s t"
  then have p: "pending_alarm s = pending_alarm t" by (simp add: sim_def)
  show ?thesis
  proof (cases "pending_alarm t")
    case None
    with p st show ?thesis by simp
  next
    case (Some r)
    have a: "sim (s\<lparr>pending_alarm := Some (r - dt)\<rparr>) (t\<lparr>pending_alarm := Some (r - dt)\<rparr>)"
      using st by (simp add: sim_def)
    have "sim (s\<lparr>pending_alarm := None\<rparr>) (t\<lparr>pending_alarm := None\<rparr>)"
      using st by (simp add: sim_def)
    then have b: "sim (signal_handler (s\<lparr>pending_alarm := None\<rparr>)) (signal_handler (t\<lparr>pending_alarm := None\<rparr>))"
      by (rule sim_signal_handler)
    from a b show ?thesis by (simp add: elapse_def p Some)
  qed
qed

lemma sim_on_data: "sim s t \<Longrightarrow> sim (on_data s b) (on_data t b')"
proof -
  assume st: "sim s t"
  let ?s4 = "(snd (set_led (snd (protect (emit (Stdout (FreefallDetected (unat b))) s) 21)) True))\<lparr>protection_active := True\<rparr>"
  let ?t4 = "(snd (set_led (snd (protect (emit (Stdout (FreefallDetected (unat b'))) t) 21)) True))\<lparr>protection_active := True\<rparr>"
  have "sim (emit (Stdout (FreefallDetected (unat b))) s) (emit (Stdout (FreefallDetected (unat b'))) t)"
    using st by (rule sim_emit) simp
  then have s4: "sim ?s4 ?t4" by (intro sim_active sim_set_led sim_protect)
  have c: "(on_ac ?s4 \<or> lid_open ?s4) = (on_ac ?t4 \<or> lid_open ?t4)"
    using sim_sensors [OF s4] by simp
  from s4 have "sim (signal_alarm ?s4 2) (signal_alarm ?t4 2)" "sim (signal_alarm ?s4 20) (signal_alarm ?t4 20)"
    by (rule sim_signal_alarm)+
  then show ?thesis
    unfolding on_data_def Let_def c by (simp del: sensors_cong protect_simps set_led_simps)
qed

lemma erase_eq:
  "erase e = erase e' \<Longrightarrow> (\<exists>b b'. e = Arrive (Data b) \<and> e' = Arrive (Data b')) \<or> e = e'"
  by (cases e rule: erase.cases; cases e' rule: erase.cases) simp_all

lemma sim_loop:
  "sim s t \<Longrightarrow> map erase es = map erase es' \<Longrightarrow>
     sim (fst (loop s es)) (fst (loop t es')) \<and> snd (loop s es) = snd (loop t es')"
proof (induction es arbitrary: es' s t)
  case Nil
  then show ?case by simp
next
  case (Cons e es)
  from Cons.prems(2) obtain e' es'' where es': "es' = e' # es''" and ee: "erase e = erase e'"
    and rest: "map erase es = map erase es''" by (cases es') auto
  from erase_eq [OF ee] show ?case
  proof
    assume "\<exists>b b'. e = Arrive (Data b) \<and> e' = Arrive (Data b')"
    then obtain b b' where e: "e = Arrive (Data b)" "e' = Arrive (Data b')" by blast
    have "sim (on_data (signal_alarm s 0) b) (on_data (signal_alarm t 0) b')"
      by (intro sim_on_data sim_signal_alarm Cons.prems(1))
    from Cons.IH [OF this rest] show ?thesis by (simp add: es' e)
  next
    assume same: "e = e'"
    show ?thesis
    proof (cases e)
      case (Arrive r)
      show ?thesis
      proof (cases r)
        case (Data b)
        have "sim (on_data (signal_alarm s 0) b) (on_data (signal_alarm t 0) b)"
          by (intro sim_on_data sim_signal_alarm Cons.prems(1))
        from Cons.IH [OF this rest] show ?thesis by (simp add: es' same [symmetric] Arrive Data)
      next
        case Eof
        have "sim (signal_alarm s 0) (signal_alarm t 0)"
          by (intro sim_signal_alarm Cons.prems(1))
        from Cons.IH [OF this rest] show ?thesis by (simp add: es' same [symmetric] Arrive Eof)
      next
        case KeyboardInterrupt
        have "sim (emit (Stdout ShuttingDown) s) (emit (Stdout ShuttingDown) t)"
          using Cons.prems(1) by (rule sim_emit) simp
        then show ?thesis by (simp add: es' same [symmetric] Arrive KeyboardInterrupt)
      next
        case (ReadError n)
        have "sim (emit (Stderr (ErrReading n)) s) (emit (Stderr (ErrReading n)) t)"
          using Cons.prems(1) by (rule sim_emit) simp
        with Cons.IH [OF Cons.prems(1) rest] show ?thesis by (simp add: es' same [symmetric] Arrive ReadError)
      next
        case Sigterm
        with Cons.prems(1) show ?thesis by (simp add: es' same [symmetric] Arrive)
      qed
    next
      case (Elapse dt)
      have "sim (elapse s dt) (elapse t dt)" using Cons.prems(1) by (rule sim_elapse)
      from Cons.IH [OF this rest] show ?thesis by (simp add: es' same [symmetric] Elapse)
    next
      case (SetFile p c)
      have "sim (s\<lparr>files := (files s)(p := c)\<rparr>) (t\<lparr>files := (files t)(p := c)\<rparr>)"
        using Cons.prems(1) by (simp add: sim_def)
      from Cons.IH [OF this rest] show ?thesis by (simp add: es' same [symmetric] SetFile)
    next
      case (SetWritable p b)
      have "sim (s\<lparr>writable := (writable s)(p := b)\<rparr>) (t\<lparr>writable := (writable t)(p := b)\<rparr>)"
        using Cons.prems(1) by (simp add: sim_def)
      from Cons.IH [OF this rest] show ?thesis by (simp add: es' same [symmetric] SetWritable)
    qed
  qed
qed

lemma sim_startup: "sim s t \<Longrightarrow> sim (startup s bt) (startup t bt)"
  by (simp add: sim_def startup_def Let_def)

lemma sim_with_block:
  assumes "map erase es = map erase es'"
  shows "fst (with_block s dm bt es) = fst (with_block s dm bt es') \<and>
         sim (snd (with_block s dm bt es)) (snd (with_block s dm bt es'))"
proof (cases "files s freefall_device \<noteq> None \<and> (dm \<longrightarrow> daemon bt = Detached)")
  case True
  have "sim (startup s bt) (startup s bt)" by simp
  from sim_loop [OF this assms] True show ?thesis by (simp add: with_block_loop loop_ending)
next
  case False
  then have "with_block s dm bt es = with_block s dm bt es'"
    by (cases "daemon bt") (auto simp add: with_block_def daemonize_def split: option.splits)
  then show ?thesis by simp
qed

lemma sim_run:
  assumes "map erase es = map erase es'"
  shows "fst (run s dm bt es) = fst (run s dm bt es') \<and> sim (snd (run s dm bt es)) (snd (run s dm bt es'))"
proof -
  obtain f w where a: "with_block s dm bt es = (f, w)" by (cases "with_block s dm bt es")
  obtain f' w' where b: "with_block s dm bt es' = (f', w')" by (cases "with_block s dm bt es'")
  from sim_with_block [OF assms, of s dm bt] a b have ff: "f' = f" and ww: "sim w w'" by simp_all
  have c: "sim (cleanup w) (cleanup w')" using ww by (rule sim_cleanup)
  have "sim (emit (Stderr (ErrOpening freefall_device)) w) (emit (Stderr (ErrOpening freefall_device)) w')"
    using ww by (rule sim_emit) simp
  then have d: "sim (cleanup (emit (Stderr (ErrOpening freefall_device)) w)) (cleanup (emit (Stderr (ErrOpening freefall_device)) w'))"
    by (rule sim_cleanup)
  from ww c d show ?thesis
    by (simp add: run_def a b ff split: flow.splits exc.splits)
qed

lemma sim_main_except:
  "sim s t \<Longrightarrow> fst (main_except (r, s)) = fst (main_except (r, t)) \<and>
     sim (snd (main_except (r, s))) (snd (main_except (r, t)))"
  by (cases "(r, s)" rule: main_except.cases) (auto intro!: sim_emit)

lemma sim_cmds: "sim s t \<Longrightarrow> cmds (log s) = cmds (log t)"
proof -
  have a: "is_cmd (anon a) = is_cmd a" "is_cmd a \<Longrightarrow> anon a = a" for a
    by (cases a rule: anon.cases; simp)+
  have *: "cmds (map anon l) = cmds l" for l
    by (induction l) (simp_all add: a)
  assume "sim s t"
  then have "cmds (map anon (log s)) = cmds (map anon (log t))" by (simp add: sim_def)
  then show ?thesis by (simp only: *)
qed

subsection \<open>The example machine\<close>

lemma machine_simps [simp]:
  "files (machine ac lid) p =
     (if p = ''/sys/block/sda/device/unload_heads'' then Some ''0''
      else if p = freefall_device then Some []
      else if p = ac_path then ac
      else if p = lid_path then lid
      else None)"
  "writable (machine ac lid) p"
  "written (machine ac lid) p = None"
  "pending_alarm (machine ac lid) = None"
  "log (machine ac lid) = []"
  by (simp_all add: machine_def)

lemma sda_simps [simp]:
  "files (sda ac lid) = files (machine ac lid)"
  "writable (sda ac lid) p"
  "written (sda ac lid) p = None"
  "pending_alarm (sda ac lid) = None"
  "log (sda ac lid) = []"
  "device (sda ac lid) = ''/dev/sda''"
  "unload_heads_path (sda ac lid) = ''/sys/block/sda/device/unload_heads''"
  "protection_active (sda ac lid) = False"
  by (simp_all add: sda_def init_ok startswith_def)

lemma paths_distinct [simp]:
  "freefall_device \<noteq> ''/sys/block/sda/device/unload_heads''"
  "ac_path \<noteq> ''/sys/block/sda/device/unload_heads''"
  "lid_path \<noteq> ''/sys/block/sda/device/unload_heads''"
  "ac_path \<noteq> freefall_device" "lid_path \<noteq> freefall_device" "lid_path \<noteq> ac_path"
  "led_path \<noteq> ''/sys/block/sda/device/unload_heads''"
  "''/sys/block/sda/device/unload_heads'' \<noteq> led_path"
  by (simp_all add: freefall_device_def ac_path_def lid_path_def led_path_def)

lemma sensor_examples:
  "on_ac (sda (Some ''1'') lid)" "on_ac (sda (Some [CHR ''1'', CHR 0x0A]) lid)"
  "\<not> on_ac (sda (Some [CHR ''0'', CHR 0x0A]) lid)"
  "on_ac (sda None lid)"
  "lid_open (sda ac (Some ''state:      open''))"
  "\<not> lid_open (sda ac (Some ''state:      closed''))"
  "lid_open (sda ac None)"
  by (simp_all add: on_ac_def lid_open_def strip_def isspace_def lower_def lower_char_def startswith_def)

section \<open>The claims\<close>




text \<open>
  Claim C2. The alarm armed after a freefall event is 2 seconds when \<open>on_ac\<close> or
  \<open>lid_open\<close> holds and 20 seconds when neither does; the four rows of the table are
  evaluated on concrete power and lid surfaces below.
\<close>

theorem duration_policy:
  "pending_alarm (fst (loop s [Arrive (Data b)])) = Some ((if on_ac s \<or> lid_open s then 2 else 20) * 1000)
   \<and> last (log (fst (loop s [Arrive (Data b)]))) = Alarm (if on_ac s \<or> lid_open s then 2 else 20)"
  by (simp add: on_data_def Let_def)

theorem duration_policy_witness:
  "pending_alarm (fst (loop (sda (Some ''1'') (Some ''state:      open'')) [Arrive (Data 1)])) = Some 2000
   \<and> pending_alarm (fst (loop (sda (Some ''1'') (Some ''state:      closed'')) [Arrive (Data 1)])) = Some 2000
   \<and> pending_alarm (fst (loop (sda (Some [CHR ''0'', CHR 0x0A]) (Some ''state:      open'')) [Arrive (Data 1)])) = Some 2000
   \<and> pending_alarm (fst (loop (sda (Some [CHR ''0'', CHR 0x0A]) (Some ''state:      closed'')) [Arrive (Data 1)])) = Some 20000"
  using duration_policy [of "sda (Some ''1'') (Some ''state:      open'')" 1]
    duration_policy [of "sda (Some ''1'') (Some ''state:      closed'')" 1]
    duration_policy [of "sda (Some [CHR ''0'', CHR 0x0A]) (Some ''state:      open'')" 1]
    duration_policy [of "sda (Some [CHR ''0'', CHR 0x0A]) (Some ''state:      closed'')" 1]
  by (simp add: sensor_examples del: loop.simps)

text \<open>
  Claim C3. When the read of the event source fails with an error other than \<^verbatim>\<open>EINTR\<close>,
  the loop ends and the cleanup runs, but \<^verbatim>\<open>run\<close> then falls through to \<^verbatim>\<open>return 0\<close>: the
  exit code of the process is 0, not the non-zero code the claim states. The sibling
  path for a failure to open the event source returns 1.
\<close>

theorem read_error_returns_zero:
  assumes "5 < length dev" and "startswith dev ''/dev/''"
    and "files s (''/sys/block/'' @ drop 5 dev @ ''/device/unload_heads'') \<noteq> None"
    and "files s freefall_device \<noteq> None"
    and "\<not> no_daemon \<longrightarrow> daemon bt = Detached"
    and "\<forall>e\<in>set pre. \<not> exits e"
    and "errno \<noteq> EINTR"
  shows "fst (main s dev no_daemon euid bt (pre @ Arrive (ReadError errno) # rest)) = Some (Return 0)
    \<and> map_option exit_code (fst (main s dev no_daemon euid bt (pre @ Arrive (ReadError errno) # rest))) = Some 0"
proof -
  let ?s0 = "if euid \<noteq> 0 then emit (Stderr WarnNotRoot) s else s"
  let ?s1 = "?s0\<lparr>device := dev, unload_heads_path := ''/sys/block/'' @ drop 5 dev @ ''/device/unload_heads'',
             protection_active := False\<rparr>"
  have f: "files ?s0 = files s" by simp
  have i: "init ?s0 dev = (None, ?s1)"
    using assms(1,2,3) by (intro init_ok) simp_all
  have ff: "files ?s1 freefall_device \<noteq> None" using assms(4) by simp
  have ex: "ending (pre @ Arrive (ReadError errno) # rest) = Fell"
    using assms(6,7) by (simp add: ending_append)
  have "run ?s1 (\<not> no_daemon) bt (pre @ Arrive (ReadError errno) # rest) =
      (Some (Return 0), cleanup (fst (loop (startup ?s1 bt) (pre @ Arrive (ReadError errno) # rest))))"
    using ff assms(5) ex by (rule run_fell)
  then have "fst (main s dev no_daemon euid bt (pre @ Arrive (ReadError errno) # rest)) = Some (Return 0)"
    by (simp only: main_unfold i prod.case option.case main_except.simps fst_conv)
  then show ?thesis by simp
qed

theorem read_error_returns_zero_witness:
  "fst (main (machine None None) ''/dev/sda'' True 0 foreground
          [Arrive (Data 1), Arrive (ReadError 5)]) = Some (Return 0)
   \<and> map_option exit_code (fst (main (machine None None) ''/dev/sda'' True 0 foreground
          [Arrive (Data 1), Arrive (ReadError 5)])) = Some 0"
  using read_error_returns_zero [of "''/dev/sda''" "machine None None" True foreground "[Arrive (Data 1)]" 5 0 "[]"]
  by (simp add: startswith_def EINTR_def)



text \<open>
  Claim C5. When the power surface cannot be read \<open>on_ac\<close> answers true, and when the lid
  surface cannot be read \<open>lid_open\<close> answers true; both are plain booleans, so no error
  reaches the caller.
\<close>

theorem sensors_fail_open: "(files s ac_path = None \<longrightarrow> on_ac s = True) \<and> (files s lid_path = None \<longrightarrow> lid_open s = True)"
  by (simp add: on_ac_def lid_open_def)

theorem sensors_fail_open_witness:
  "files (machine None None) ac_path = None \<and> on_ac (machine None None)
   \<and> files (machine None None) lid_path = None \<and> lid_open (machine None None)"
  using sensors_fail_open [of "machine None None"] by simp

text \<open>
  Claim C6. \<open>protect n\<close> attempts to write exactly \<open>n * 1000\<close> to the head-park surface,
  the surface holds that value when the write is accepted, and is left as it was when
  the write fails. The cleanup always begins by attempting \<open>protect 0\<close>, in whatever
  state earlier writes left the program.
\<close>

theorem protect_writes_milliseconds:
  "cmds (log (snd (protect s (int n)))) =
      cmds (log s) @ [Write (unload_heads_path s) (int n * 1000) (writable s (unload_heads_path s))]
   \<and> (writable s (unload_heads_path s) \<longrightarrow>
        fst (protect s (int n)) \<and>
        written (snd (protect s (int n))) (unload_heads_path s) = Some (int n * 1000))
   \<and> (\<not> writable s (unload_heads_path s) \<longrightarrow>
        \<not> fst (protect s (int n)) \<and> written (snd (protect s (int n))) = written s)
   \<and> (\<exists>tl. cmds (log (cleanup s)) =
        cmds (log s) @ Write (unload_heads_path s) 0 (writable s (unload_heads_path s)) # tl)"
  using cleanup_log [of s]
  by (auto simp add: protect_def write_int_written)

theorem protect_writes_milliseconds_witness:
  "cmds (log (snd (protect (sda None None) 21))) = [Write ''/sys/block/sda/device/unload_heads'' 21000 True]
   \<and> written (snd (protect (sda None None) 21)) ''/sys/block/sda/device/unload_heads'' = Some 21000
   \<and> written (snd (protect (sda None None) 0)) ''/sys/block/sda/device/unload_heads'' = Some 0"
  using protect_writes_milliseconds [of "sda None None" 21] protect_writes_milliseconds [of "sda None None" 0] by simp

text \<open>
  Claim C7. When the device name is well formed but its head-park surface cannot be
  opened for reading, construction raises \<^verbatim>\<open>RuntimeError\<close>; \<^verbatim>\<open>main\<close> prints the
  diagnostics and the help text, returns 1, and never reaches the event loop: the
  result does not depend on the events, nothing is written and no alarm is armed.
\<close>

theorem unprobeable_surface_is_fatal:
  assumes "5 < length dev" and "startswith dev ''/dev/''"
    and "files s (''/sys/block/'' @ drop 5 dev @ ''/device/unload_heads'') = None"
  shows "fst (main s dev no_daemon euid bt es) = Some (Return 1) \<and>
     log (snd (main s dev no_daemon euid bt es)) =
       log s @ (if euid \<noteq> 0 then [Stderr WarnNotRoot] else []) @
         [Stderr (ErrAccessing (''/sys/block/'' @ drop 5 dev @ ''/device/unload_heads'')),
          Stderr (ErrorMsg (RuntimeError dev)), Stdout HelpText] \<and>
     written (snd (main s dev no_daemon euid bt es)) = written s \<and>
     pending_alarm (snd (main s dev no_daemon euid bt es)) = pending_alarm s"
proof -
  let ?s0 = "if euid \<noteq> 0 then emit (Stderr WarnNotRoot) s else s"
  have f: "files ?s0 = files s" by simp
  have i: "init ?s0 dev = (Some (RuntimeError dev),
        emit (Stderr (ErrAccessing (''/sys/block/'' @ drop 5 dev @ ''/device/unload_heads'')))
          (?s0\<lparr>device := dev, unload_heads_path := ''/sys/block/'' @ drop 5 dev @ ''/device/unload_heads'',
             protection_active := False\<rparr>))"
    using assms by (intro init_no_surface) simp_all
  show ?thesis
    unfolding main_unfold i by simp
qed

theorem unprobeable_surface_is_fatal_witness:
  "fst (main (machine None None) ''/dev/sdb'' True 0 foreground [Arrive (Data 1)]) = Some (Return 1)
   \<and> log (snd (main (machine None None) ''/dev/sdb'' True 0 foreground [Arrive (Data 1)])) =
       [Stderr (ErrAccessing ''/sys/block/sdb/device/unload_heads''),
        Stderr (ErrorMsg (RuntimeError ''/dev/sdb'')), Stdout HelpText]"
  using unprobeable_surface_is_fatal [of "''/dev/sdb''" "machine None None" True 0 foreground "[Arrive (Data 1)]"]
  by (simp add: startswith_def freefall_device_def ac_path_def lid_path_def)

text \<open>
  Claim C8. Two runs of \<^verbatim>\<open>main\<close> whose event scripts differ only in the bytes carried by
  the freefall events end with the same result, the same sequence of write and alarm
  commands, and states that differ at most in the count shown in the printed freefall
  lines.
\<close>

theorem event_byte_only_logged:
  assumes "map erase es = map erase es'"
  shows "fst (main s dev nd euid bt es) = fst (main s dev nd euid bt es') \<and>
     cmds (log (snd (main s dev nd euid bt es))) = cmds (log (snd (main s dev nd euid bt es'))) \<and>
     sim (snd (main s dev nd euid bt es)) (snd (main s dev nd euid bt es'))"
proof -
  let ?s0 = "if euid \<noteq> 0 then emit (Stderr WarnNotRoot) s else s"
  obtain x s1 where i: "init ?s0 dev = (x, s1)" by (cases "init ?s0 dev")
  have m: "fst (main s dev nd euid bt es) = fst (main s dev nd euid bt es') \<and>
     sim (snd (main s dev nd euid bt es)) (snd (main s dev nd euid bt es'))"
  proof (cases x)
    case None
    obtain r w where a: "run s1 (\<not> nd) bt es = (r, w)" by (cases "run s1 (\<not> nd) bt es")
    obtain r' w' where b: "run s1 (\<not> nd) bt es' = (r', w')" by (cases "run s1 (\<not> nd) bt es'")
    from sim_run [OF assms, of s1 "\<not> nd" bt] a b have "r' = r" "sim w w'" by simp_all
    with sim_main_except [of w w' r] show ?thesis
      unfolding main_unfold i None by (simp add: a b)
  next
    case (Some e)
    show ?thesis unfolding main_unfold i Some by simp
  qed
  with sim_cmds show ?thesis by blast
qed

theorem event_byte_only_logged_witness:
  "cmds (log (snd (main (machine None None) ''/dev/sda'' True 0 foreground [Arrive (Data 1), Arrive KeyboardInterrupt]))) =
   cmds (log (snd (main (machine None None) ''/dev/sda'' True 0 foreground [Arrive (Data 7), Arrive KeyboardInterrupt])))"
  using event_byte_only_logged [of "[Arrive (Data 1), Arrive KeyboardInterrupt]" "[Arrive (Data 7), Arrive KeyboardInterrupt]"
      "machine None None" "''/dev/sda''" True 0 foreground]
  by simp

text \<open>
  Claim C9. In every state, whatever alarm is pending and whatever happened before, a
  read that returns no byte cancels the pending alarm and does nothing else: the only
  action added is \<^verbatim>\<open>signal.alarm(0)\<close>, no surface is written, \<open>protection_active\<close> is as
  before, no alarm is armed, and the loop goes on waiting; all of this stays so while no
  further read returns. Hence after a freefall event and any wait shorter than its
  alarm, an empty read leaves the machine protecting with no alarm pending.
\<close>

theorem empty_read_cancels_deadline:
  "((\<forall>e\<in>set mid. \<not> is_arrive e) \<longrightarrow>
      log (fst (loop s (Arrive Eof # mid))) = log s @ [Alarm 0] \<and>
      pending_alarm (fst (loop s (Arrive Eof # mid))) = None \<and>
      protection_active (fst (loop s (Arrive Eof # mid))) = protection_active s \<and>
      written (fst (loop s (Arrive Eof # mid))) = written s \<and>
      snd (loop s (Arrive Eof # mid)) = Blocked)
   \<and> ((\<forall>e\<in>set gap. \<not> is_arrive e) \<and> waited gap < (if on_ac s \<or> lid_open s then 2 else 20) * 1000 \<and>
       (\<forall>e\<in>set mid. \<not> is_arrive e) \<longrightarrow>
      log (fst (loop s (Arrive (Data b) # gap @ Arrive Eof # mid))) =
        log (fst (loop s [Arrive (Data b)])) @ [Alarm 0] \<and>
      pending_alarm (fst (loop s (Arrive (Data b) # gap @ Arrive Eof # mid))) = None \<and>
      protection_active (fst (loop s (Arrive (Data b) # gap @ Arrive Eof # mid))) \<and>
      written (fst (loop s (Arrive (Data b) # gap @ Arrive Eof # mid))) =
        written (fst (loop s [Arrive (Data b)])) \<and>
      snd (loop s (Arrive (Data b) # gap @ Arrive Eof # mid)) = Blocked)"
proof -
  have one: "log (fst (loop v (Arrive Eof # mid))) = log v @ [Alarm 0] \<and>
      pending_alarm (fst (loop v (Arrive Eof # mid))) = None \<and>
      protection_active (fst (loop v (Arrive Eof # mid))) = protection_active v \<and>
      written (fst (loop v (Arrive Eof # mid))) = written v \<and>
      snd (loop v (Arrive Eof # mid)) = Blocked"
    if q: "\<forall>e\<in>set mid. \<not> is_arrive e" for v
  proof -
    have p: "pending_alarm (signal_alarm v 0) = None" by simp
    from quiet_none [OF q p] show ?thesis by simp
  qed
  have two: "log (fst (loop s (Arrive (Data b) # gap @ Arrive Eof # mid))) =
        log (fst (loop s [Arrive (Data b)])) @ [Alarm 0] \<and>
      pending_alarm (fst (loop s (Arrive (Data b) # gap @ Arrive Eof # mid))) = None \<and>
      protection_active (fst (loop s (Arrive (Data b) # gap @ Arrive Eof # mid))) \<and>
      written (fst (loop s (Arrive (Data b) # gap @ Arrive Eof # mid))) =
        written (fst (loop s [Arrive (Data b)])) \<and>
      snd (loop s (Arrive (Data b) # gap @ Arrive Eof # mid)) = Blocked"
    if g: "\<forall>e\<in>set gap. \<not> is_arrive e"
      and w: "waited gap < (if on_ac s \<or> lid_open s then 2 else 20) * 1000"
      and q: "\<forall>e\<in>set mid. \<not> is_arrive e"
  proof -
    define t where "t = on_data (signal_alarm s 0) b"
    have pt: "pending_alarm t = Some ((if on_ac s \<or> lid_open s then 2 else 20) * 1000)"
      by (simp add: t_def)
    note qs = quiet_some [OF g pt w]
    define u where "u = fst (loop t gap)"
    from qs have u: "log u = log t" "protection_active u = protection_active t"
      "written u = written t" and nb: "snd (loop t gap) = Blocked"
      by (simp_all add: u_def)
    have e: "loop s (Arrive (Data b) # gap @ Arrive Eof # mid) = loop u (Arrive Eof # mid)"
      by (simp add: t_def [symmetric] loop_append [OF nb] u_def [symmetric])
    have f: "fst (loop s [Arrive (Data b)]) = t" by (simp add: t_def)
    have "protection_active t" by (simp add: t_def)
    with one [OF q, of u] show ?thesis
      unfolding e f by (simp add: u)
  qed
  from one two show ?thesis by blast
qed

theorem empty_read_cancels_deadline_witness:
  "pending_alarm (fst (loop (sda None None)
      [Arrive (Data 1), Elapse 500, Arrive Eof, Elapse 30000])) = None
   \<and> protection_active (fst (loop (sda None None)
      [Arrive (Data 1), Elapse 500, Arrive Eof, Elapse 30000]))
   \<and> written (fst (loop (sda None None)
      [Arrive (Data 1), Elapse 500, Arrive Eof, Elapse 30000]))
        ''/sys/block/sda/device/unload_heads'' = Some 21000
   \<and> snd (loop (sda None None) [Arrive (Data 1), Elapse 500, Arrive Eof, Elapse 30000]) = Blocked"
proof -
  have s: "on_ac (sda None None)" by (simp add: on_ac_def)
  from empty_read_cancels_deadline
    [where s = "sda None None" and b = 1 and gap = "[Elapse 500]" and mid = "[Elapse 30000]"]
  show ?thesis
    by (simp add: s on_data_def Let_def protect_def set_led_def write_int_written
        signal_alarm_def emit_def on_ac_def)
qed

text \<open>
  Claim C10. A device string of at most 5 characters, or one that does not start with
  \<^verbatim>\<open>/dev/\<close>, is rejected with \<^verbatim>\<open>ValueError\<close> before the head-park surface is probed: the
  outcome does not depend on the surfaces, nothing is printed by the constructor,
  \<^verbatim>\<open>main\<close> returns 1 and issues no command. For every accepted string \<^verbatim>\<open>/dev/<name>\<close> the
  derived path is \<^verbatim>\<open>/sys/block/<name>/device/unload_heads\<close>.
\<close>

theorem device_name_validation:
  "(length dev \<le> 5 \<or> \<not> startswith dev ''/dev/'' \<longrightarrow>
      init s dev = (Some (ValueError dev),
                    s\<lparr>device := dev, unload_heads_path := [], protection_active := False\<rparr>) \<and>
      fst (main s dev no_daemon euid bt es) = Some (Return 1) \<and>
      cmds (log (snd (main s dev no_daemon euid bt es))) = cmds (log s))
   \<and> (name \<noteq> [] \<longrightarrow>
      set_unload_heads_path s (''/dev/'' @ name) =
        (True, s\<lparr>unload_heads_path := ''/sys/block/'' @ name @ ''/device/unload_heads''\<rparr>))"
proof (intro conjI impI)
  assume bad: "length dev \<le> 5 \<or> \<not> startswith dev ''/dev/''"
  then show "init s dev = (Some (ValueError dev),
                    s\<lparr>device := dev, unload_heads_path := [], protection_active := False\<rparr>)"
    by (rule init_bad_name)
  let ?s0 = "if euid \<noteq> 0 then emit (Stderr WarnNotRoot) s else s"
  have i: "init ?s0 dev = (Some (ValueError dev),
                    ?s0\<lparr>device := dev, unload_heads_path := [], protection_active := False\<rparr>)"
    using bad by (rule init_bad_name)
  show "fst (main s dev no_daemon euid bt es) = Some (Return 1)"
    unfolding main_unfold i by simp
  show "cmds (log (snd (main s dev no_daemon euid bt es))) = cmds (log s)"
    unfolding main_unfold i by simp
next
  assume "name \<noteq> []"
  then show "set_unload_heads_path s (''/dev/'' @ name) =
        (True, s\<lparr>unload_heads_path := ''/sys/block/'' @ name @ ''/device/unload_heads''\<rparr>)"
    by (simp add: set_unload_heads_path_def startswith_def)
qed

theorem device_name_validation_witness:
  "fst (init (machine None None) ''sda'') = Some (ValueError ''sda'')
   \<and> fst (init (machine None None) ''/dev/'') = Some (ValueError ''/dev/'')
   \<and> unload_heads_path (snd (set_unload_heads_path (machine None None) ''/dev/sda'')) =
       ''/sys/block/sda/device/unload_heads''"
  using device_name_validation [of "''sda''" "machine None None" True 0 foreground "[]" "''sda''"]
    device_name_validation [of "''/dev/''" "machine None None" True 0 foreground "[]" "''sda''"]
  by (simp add: startswith_def)

end
